theory Spec2Isabelle
  imports Main "HOL-Library.Sublist"
begin

section \<open>Python building blocks used by the pipeline\<close>

text \<open>
  A Python \<open>str\<close> is modelled as a \<open>string\<close>, one \<open>char\<close> per code point, which covers
  the code points below 256; \<open>len\<close> is \<open>length\<close>. The exceptions the modelled code can
  raise are values of \<open>py_error\<close>.
\<close>

datatype py_error =
  IndexError | KeyError | TypeError | ZeroDivisionError | OSError | JSONDecodeError
  | GenerationFailure

text \<open>\<open>str.isspace\<close> on the code points below 256.\<close>

definition isspace :: "char \<Rightarrow> bool" where
  "isspace c = (c \<in> set [CHR 0x09, CHR 0x0A, CHR 0x0B, CHR 0x0C, CHR 0x0D,
                           CHR 0x1C, CHR 0x1D, CHR 0x1E, CHR 0x1F, CHR 0x20,
                           CHR 0x85, CHR 0xA0])"

text \<open>\<open>s.strip()\<close>: leading and trailing whitespace removed.\<close>

definition strip :: "string \<Rightarrow> string" where
  "strip s = rev (dropWhile isspace (rev (dropWhile isspace s)))"

text \<open>
  \<open>s.split()\<close> without arguments: the maximal runs of non-whitespace characters, in
  order. The first argument is the word being read.
\<close>

fun split_from :: "string \<Rightarrow> string \<Rightarrow> string list" where
  "split_from w [] = (if w = [] then [] else [w])"
| "split_from w (c # cs) =
     (if isspace c then (if w = [] then split_from [] cs else w # split_from [] cs)
      else split_from (w @ [c]) cs)"

definition str_split :: "string \<Rightarrow> string list" where
  "str_split s = split_from [] s"

text \<open>\<open>" ".join(ws)\<close>.\<close>

fun join_space :: "string list \<Rightarrow> string" where
  "join_space [] = []"
| "join_space [w] = w"
| "join_space (w # v # ws) = w @ CHR '' '' # join_space (v # ws)"

text \<open>
  \<open>xs[i:j]\<close> for integers \<open>i\<close> and \<open>j\<close>: a negative bound counts from the end, and
  both bounds are clipped to the list.
\<close>

definition slice_bound :: "nat \<Rightarrow> int \<Rightarrow> nat" where
  "slice_bound n i = (if i < 0 then nat (max (i + int n) 0) else min (nat i) n)"

definition slice :: "'a list \<Rightarrow> int \<Rightarrow> int \<Rightarrow> 'a list" where
  "slice xs i j =
     (let lo = slice_bound (length xs) i; hi = slice_bound (length xs) j
      in take (hi - lo) (drop lo xs))"

text \<open>\<open>enumerate(xs)\<close>.\<close>

definition enumerate_list :: "'a list \<Rightarrow> (nat \<times> 'a) list" where
  "enumerate_list xs = zip [0 ..< length xs] xs"

text \<open>
  \<open>sorted(xs, key=f, reverse=True)\<close>. CPython reverses the list, sorts it stably in
  ascending key order and reverses the outcome, so elements of equal key keep the order
  they had in \<open>xs\<close>.
\<close>

definition sorted_reverse :: "('a \<Rightarrow> 'k::linorder) \<Rightarrow> 'a list \<Rightarrow> 'a list" where
  "sorted_reverse f xs = rev (sort_key f (rev xs))"

text \<open>
  \<open>re.split(r'\f+', s)\<close>: the pieces of \<open>s\<close> between maximal runs of form feeds, with an
  empty piece before a leading run and after a trailing one. The flag says that the
  previous character was a form feed; the second argument is the piece being read.
\<close>

fun re_split_from :: "bool \<Rightarrow> string \<Rightarrow> string \<Rightarrow> string list" where
  "re_split_from in_run piece [] = [piece]"
| "re_split_from in_run piece (c # cs) =
     (if c = CHR 0x0C then
        (if in_run then re_split_from True [] cs else piece # re_split_from True [] cs)
      else re_split_from False (piece @ [c]) cs)"

definition re_split_ff :: "string \<Rightarrow> string list" where
  "re_split_ff s = re_split_from False [] s"

section \<open>PDFRAGPipeline\<close>

text \<open>
  The dictionaries \<open>{"page": n, "text": t}\<close> and \<open>{"page": n, "chunk": t}\<close>, and the
  object itself. \<open>bm25\<close> holds the tokenised corpus the \<open>BM25Okapi\<close> object was built
  from. The PDF file behind \<open>pdf_path\<close> is a parameter of the operations that read it.
\<close>

record page_dict =
  page :: int
  page_text :: string

record chunk_dict =
  chunk_page :: int
  chunk :: string

record pipeline =
  chunk_size :: int
  overlap :: int
  pages :: "page_dict list option"
  chunks :: "chunk_dict list option"
  bm25 :: "string list list option"

definition PDFRAGPipeline :: "int \<Rightarrow> int \<Rightarrow> pipeline" where
  "PDFRAGPipeline cs ov =
     \<lparr>chunk_size = cs, overlap = ov, pages = None, chunks = None, bm25 = None\<rparr>"

subsection \<open>Extraction\<close>

text \<open>
  \<open>extract_pages\<close> and \<open>extract_pages_pypdf2\<close> run the same loop over the per-page
  results of \<open>page.extract_text()\<close> of their library, a string or \<open>None\<close> for each
  physical page in order: the text is tested first and stripped afterwards.
\<close>

definition extract_loop :: "string option list \<Rightarrow> page_dict list" where
  "extract_loop doc =
     concat (map (\<lambda>(i, t). case t of None \<Rightarrow> []
                            | Some s \<Rightarrow> if s \<noteq> [] then [\<lparr>page = int i + 1, page_text = strip s\<rparr>] else [])
                 (enumerate_list doc))"

definition extract_pages :: "string option list \<Rightarrow> pipeline \<Rightarrow> page_dict list \<times> pipeline" where
  "extract_pages doc p = (let ps = extract_loop doc in (ps, p\<lparr>pages := Some ps\<rparr>))"

definition extract_pages_pypdf2 :: "string option list \<Rightarrow> pipeline \<Rightarrow> page_dict list \<times> pipeline" where
  "extract_pages_pypdf2 doc p = (let ps = extract_loop doc in (ps, p\<lparr>pages := Some ps\<rparr>))"

text \<open>
  \<open>extract_pages_pdfminer\<close> works on the whole text returned by pdfminer's
  \<open>extract_text\<close>: here the piece is stripped first and tested afterwards.
\<close>

definition extract_pages_pdfminer :: "string \<Rightarrow> pipeline \<Rightarrow> page_dict list \<times> pipeline" where
  "extract_pages_pdfminer full_text p =
     (let raw_pages = re_split_ff full_text;
          ps = concat (map (\<lambda>(i, t). let t' = strip t
                                      in if t' \<noteq> [] then [\<lparr>page = int i + 1, page_text = t'\<rparr>] else [])
                           (enumerate_list raw_pages))
      in (ps, p\<lparr>pages := Some ps\<rparr>))"

text \<open>
  pdfminer's text converter writes the text of each physical page followed by one form
  feed, which is the page separator the docstring of \<open>extract_pages_pdfminer\<close> relies on.
\<close>

definition pdfminer_extract_text :: "string list \<Rightarrow> string" where
  "pdfminer_extract_text page_texts = concat (map (\<lambda>t. t @ [CHR 0x0C]) page_texts)"

subsection \<open>Chunking\<close>

text \<open>
  The \<open>while\<close> loop of \<open>split_pages\<close> over one page. It does not return when
  \<open>chunk_size - overlap\<close> is not positive and the page has a word, so its result is an
  option and \<open>None\<close> stands for a loop that runs forever.
\<close>

partial_function (option) split_loop ::
    "int \<Rightarrow> int \<Rightarrow> int \<Rightarrow> string list \<Rightarrow> int \<Rightarrow> chunk_dict list \<Rightarrow> chunk_dict list option" where
  "split_loop cs ov pg words start all_chunks =
     (if start < int (length words) then
        (let chunk_words = slice words start (start + cs);
             chunk_text = join_space chunk_words;
             all_chunks' = (if length chunk_text > 20
                            then all_chunks @ [\<lparr>chunk_page = pg, chunk = chunk_text\<rparr>]
                            else all_chunks)
         in split_loop cs ov pg words (start + (cs - ov)) all_chunks')
      else Some all_chunks)"

declare split_loop.simps [code]

text \<open>The \<open>for\<close> loop over the pages.\<close>

fun split_for :: "int \<Rightarrow> int \<Rightarrow> page_dict list \<Rightarrow> chunk_dict list \<Rightarrow> chunk_dict list option" where
  "split_for cs ov [] all_chunks = Some all_chunks"
| "split_for cs ov (pg # pgs) all_chunks =
     (case split_loop cs ov (page pg) (str_split (page_text pg)) 0 all_chunks of
        None \<Rightarrow> None
      | Some all_chunks' \<Rightarrow> split_for cs ov pgs all_chunks')"

definition split_pages :: "string option list \<Rightarrow> pipeline \<Rightarrow> (chunk_dict list \<times> pipeline) option" where
  "split_pages doc p =
     (let (ps, p1) = (case pages p of None \<Rightarrow> extract_pages doc p | Some ps \<Rightarrow> (ps, p))
      in case split_for (chunk_size p1) (overlap p1) ps [] of
           None \<Rightarrow> None
         | Some all_chunks \<Rightarrow> Some (all_chunks, p1\<lparr>chunks := Some all_chunks\<rparr>))"

subsection \<open>Index and search\<close>

text \<open>
  \<open>BM25Okapi(corpus)\<close> of the \<open>rank_bm25\<close> library divides by the number of documents
  when it computes the average document length and by the number of distinct words when
  it computes the average idf, so a corpus without any word, the empty corpus included,
  raises. The index object is represented by the corpus it was built from.
\<close>

definition BM25Okapi :: "string list list \<Rightarrow> py_error + string list list" where
  "BM25Okapi corpus = (if concat corpus = [] then Inl ZeroDivisionError else Inr corpus)"

definition build_index ::
    "string option list \<Rightarrow> pipeline \<Rightarrow> ((py_error + string list list) \<times> pipeline) option" where
  "build_index doc p =
     (case (case chunks p of None \<Rightarrow> split_pages doc p | Some cs \<Rightarrow> Some (cs, p)) of
        None \<Rightarrow> None
      | Some (cs, p1) \<Rightarrow>
          (let tokenized_chunks = map (\<lambda>c. str_split (chunk c)) cs
           in case BM25Okapi tokenized_chunks of
                Inl e \<Rightarrow> Some (Inl e, p1)
              | Inr idx \<Rightarrow> Some (Inr idx, p1\<lparr>bm25 := Some idx\<rparr>)))"

text \<open>
  \<open>bm25.get_scores(query_tokens)\<close> returns one score per document of the corpus. The
  scoring formula belongs to the library and is a parameter: \<open>scorer corpus query i\<close> is
  the score of document \<open>i\<close>, in any linear order (the library's scores are finite
  floating-point numbers).
\<close>

definition get_scores ::
    "(string list list \<Rightarrow> string list \<Rightarrow> nat \<Rightarrow> 's) \<Rightarrow> string list list \<Rightarrow> string list \<Rightarrow> 's list" where
  "get_scores scorer corpus query_tokens = map (scorer corpus query_tokens) [0 ..< length corpus]"

definition top_indices :: "('s::linorder) list \<Rightarrow> int \<Rightarrow> nat list" where
  "top_indices scores top_k =
     slice (sorted_reverse (\<lambda>i. scores ! i) [0 ..< length scores]) 0 top_k"

text \<open>
  \<open>search_query\<close> returns its outcome together with the object, which it changes when it
  has to build the index first. The list comprehension reads \<open>self.chunks[i]\<close> for each
  index: that raises when \<open>self.chunks\<close> is \<open>None\<close>, and when the index was built over more
  chunks than are stored now; with no index to read, the result is the empty list.
\<close>

definition search_query ::
    "(string list list \<Rightarrow> string list \<Rightarrow> nat \<Rightarrow> 's::linorder) \<Rightarrow> string option list \<Rightarrow> pipeline
      \<Rightarrow> string \<Rightarrow> int \<Rightarrow> ((py_error + chunk_dict list) \<times> pipeline) option" where
  "search_query scorer doc p query top_k =
     (case (case bm25 p of None \<Rightarrow> build_index doc p | Some idx \<Rightarrow> Some (Inr idx, p)) of
        None \<Rightarrow> None
      | Some (Inl e, p1) \<Rightarrow> Some (Inl e, p1)
      | Some (Inr idx, p1) \<Rightarrow>
          (let query_tokens = str_split query;
               scores = get_scores scorer idx query_tokens;
               tis = top_indices scores top_k
           in case chunks p1 of
                None \<Rightarrow> if tis = [] then Some (Inr [], p1) else Some (Inl TypeError, p1)
              | Some cs \<Rightarrow>
                  if list_all (\<lambda>i. i < length cs) tis
                  then Some (Inr (map (\<lambda>i. cs ! i) tis), p1)
                  else Some (Inl IndexError, p1)))"

text \<open>\<open>load_chunks\<close> replaces the stored chunks by the unpickled list.\<close>

definition load_chunks :: "chunk_dict list \<Rightarrow> pipeline \<Rightarrow> chunk_dict list \<times> pipeline" where
  "load_chunks stored p = (stored, p\<lparr>chunks := Some stored\<rparr>)"

section \<open>LLMPipeline\<close>

text \<open>
  The Hugging Face pipeline object is the external text generator: it is called with
  the prompt, \<open>max_length\<close> and \<open>do_sample\<close>, and either raises or returns a list of
  dictionaries.
\<close>

record llm_pipeline =
  model_pipeline :: "string \<Rightarrow> int \<Rightarrow> bool \<Rightarrow> py_error + (string \<times> string) list list"
  max_length :: int
  do_sample :: bool

text \<open>The f-string of \<open>generate_answer\<close>.\<close>

definition prompt :: "string \<Rightarrow> string \<Rightarrow> string" where
  \<open>prompt q context =
     ''Use the following context extracted from the document to answer the question.\<newline>If the answer is not contained in the context, say "I don't know."\<newline>\<newline>Context:\<newline>''
     @ context @ ''\<newline>\<newline>Question:\<newline>''
     @ q @ ''\<newline>\<newline>Answer:''\<close>

text \<open>\<open>result[0]['generated_text'].strip()\<close> raises on an empty list and on a missing key.\<close>

definition generated_text :: "(string \<times> string) list list \<Rightarrow> py_error + string" where
  "generated_text result =
     (case result of
        [] \<Rightarrow> Inl IndexError
      | d # _ \<Rightarrow>
          (case map_of d ''generated_text'' of
             None \<Rightarrow> Inl KeyError
           | Some t \<Rightarrow> Inr (strip t)))"

definition generate_answer :: "llm_pipeline \<Rightarrow> string \<Rightarrow> string \<Rightarrow> py_error + string" where
  "generate_answer llm q context =
     (case model_pipeline llm (prompt q context) (max_length llm) (do_sample llm) of
        Inl e \<Rightarrow> Inl e
      | Inr result \<Rightarrow> generated_text result)"

section \<open>TelegramRAGBot\<close>

subsection \<open>State\<close>

text \<open>
  \<open>self.stats\<close>, the entries of \<open>self.qa_log\<close> (\<open>feedback\<close> is \<open>None\<close>, \<open>"yes"\<close> or
  \<open>"no"\<close>) and the bot. The chunks are dictionaries with both keys, so the defaults of
  \<open>retrieval_result.get\<close> are never taken and \<open>retrieved_page\<close> is a number.
\<close>

record stats_dict =
  total :: int
  correct :: int
  incorrect :: int

record qa_record =
  query :: string
  retrieval_context :: string
  retrieved_page :: int
  generated_answer :: string
  feedback :: "string option"

record bot =
  retrieval_pipeline :: pipeline
  stats :: stats_dict
  qa_log :: "qa_record list"
  stats_path :: string
  qa_log_path :: string

definition TelegramRAGBot :: "pipeline \<Rightarrow> string \<Rightarrow> string \<Rightarrow> bot" where
  "TelegramRAGBot rp sp qp =
     \<lparr>retrieval_pipeline = rp, stats = \<lparr>total = 0, correct = 0, incorrect = 0\<rparr>,
      qa_log = [], stats_path = sp, qa_log_path = qp\<rparr>"

subsection \<open>JSON files\<close>

text \<open>
  A file holds the JSON document that \<open>json.dump\<close> wrote and \<open>json.load\<close> reads back,
  or text that is no JSON. Files are told apart by the file a path leads to
  (\<open>realpath\<close>), not by the path string: \<open>x.json\<close> and \<open>./x.json\<close> are one file.
  \<open>open(path, "w")\<close> raises for a file that cannot be written and empties the file
  otherwise; \<open>open(path, "r")\<close> raises for a file that does not exist. The write that
  follows the opening can break off (\<open>interrupted\<close>: a full disk, a character that cannot
  be encoded), which leaves text that is no JSON in the file.
\<close>

datatype json = JNull | JInt int | JStr string | JArr "json list" | JObj "(string \<times> json) list"

datatype file_content = JsonText json | OtherText

record filesystem =
  realpath :: "string \<Rightarrow> string"
  files :: "string \<Rightarrow> file_content option"
  writable :: "string \<Rightarrow> bool"
  interrupted :: "string \<Rightarrow> bool"

definition open_w :: "string \<Rightarrow> filesystem \<Rightarrow> py_error + filesystem" where
  "open_w path fs =
     (if writable fs (realpath fs path)
      then Inr (fs\<lparr>files := (files fs)(realpath fs path \<mapsto> OtherText)\<rparr>)
      else Inl OSError)"

definition json_dump :: "json \<Rightarrow> string \<Rightarrow> filesystem \<Rightarrow> py_error option \<times> filesystem" where
  "json_dump j path fs =
     (if interrupted fs (realpath fs path) then (Some OSError, fs)
      else (None, fs\<lparr>files := (files fs)(realpath fs path \<mapsto> JsonText j)\<rparr>))"

definition json_load :: "string \<Rightarrow> filesystem \<Rightarrow> py_error + json" where
  "json_load path fs =
     (case files fs (realpath fs path) of
        None \<Rightarrow> Inl OSError
      | Some OtherText \<Rightarrow> Inl JSONDecodeError
      | Some (JsonText j) \<Rightarrow> Inr j)"

text \<open>The JSON documents of the statistics dictionary and of the QA log.\<close>

definition stats_to_json :: "stats_dict \<Rightarrow> json" where
  "stats_to_json st =
     JObj [(''total'', JInt (total st)), (''correct'', JInt (correct st)),
           (''incorrect'', JInt (incorrect st))]"

definition qa_record_to_json :: "qa_record \<Rightarrow> json" where
  "qa_record_to_json r =
     JObj [(''query'', JStr (query r)),
           (''retrieval_context'', JStr (retrieval_context r)),
           (''retrieved_page'', JInt (retrieved_page r)),
           (''generated_answer'', JStr (generated_answer r)),
           (''feedback'', case feedback r of None \<Rightarrow> JNull | Some v \<Rightarrow> JStr v)]"

definition qa_log_to_json :: "qa_record list \<Rightarrow> json" where
  "qa_log_to_json l = JArr (map qa_record_to_json l)"

text \<open>
  Reading a document back as a Python object: an object becomes a dictionary, in which
  the last occurrence of a key wins and the order of the keys does not matter. The
  result is \<open>None\<close> when the document is not a statistics dictionary (a QA log).
\<close>

definition dict_get :: "(string \<times> json) list \<Rightarrow> string \<Rightarrow> json option" where
  "dict_get kvs k = map_of (rev kvs) k"

definition stats_of_json :: "json \<Rightarrow> stats_dict option" where
  "stats_of_json j =
     (case j of
        JObj kvs \<Rightarrow>
          (if set (map fst kvs) = {''total'', ''correct'', ''incorrect''} then
             (case (dict_get kvs ''total'', dict_get kvs ''correct'', dict_get kvs ''incorrect'') of
                (Some (JInt t), Some (JInt c), Some (JInt i)) \<Rightarrow>
                  Some \<lparr>total = t, correct = c, incorrect = i\<rparr>
              | _ \<Rightarrow> None)
           else None)
      | _ \<Rightarrow> None)"

definition feedback_of_json :: "json \<Rightarrow> string option option" where
  "feedback_of_json j = (case j of JNull \<Rightarrow> Some None | JStr v \<Rightarrow> Some (Some v) | _ \<Rightarrow> None)"

definition qa_record_of_json :: "json \<Rightarrow> qa_record option" where
  "qa_record_of_json j =
     (case j of
        JObj kvs \<Rightarrow>
          (if set (map fst kvs) = {''query'', ''retrieval_context'', ''retrieved_page'',
                                   ''generated_answer'', ''feedback''} then
             (case (dict_get kvs ''query'', dict_get kvs ''retrieval_context'',
                    dict_get kvs ''retrieved_page'', dict_get kvs ''generated_answer'',
                    map_option feedback_of_json (dict_get kvs ''feedback'')) of
                (Some (JStr q), Some (JStr c), Some (JInt n), Some (JStr a), Some (Some f)) \<Rightarrow>
                  Some \<lparr>query = q, retrieval_context = c, retrieved_page = n,
                        generated_answer = a, feedback = f\<rparr>
              | _ \<Rightarrow> None)
           else None)
      | _ \<Rightarrow> None)"

fun those_records :: "json list \<Rightarrow> qa_record list option" where
  "those_records [] = Some []"
| "those_records (j # js) =
     (case qa_record_of_json j of
        None \<Rightarrow> None
      | Some r \<Rightarrow> (case those_records js of None \<Rightarrow> None | Some rs \<Rightarrow> Some (r # rs)))"

definition qa_log_of_json :: "json \<Rightarrow> qa_record list option" where
  "qa_log_of_json j = (case j of JArr js \<Rightarrow> those_records js | _ \<Rightarrow> None)"

subsection \<open>Saving and loading\<close>

text \<open>
  Both \<open>save\<close> methods log a failure and go on, so they return the file system only,
  in the state the failure left it.
  The \<open>load\<close> methods assign whatever document the file holds; \<open>Foreign\<close> is the outcome
  for a document that is not of the shape of the typed field, which the source would
  store as it is.
\<close>

datatype 'a loaded = Loaded 'a | Foreign json

definition save_stats :: "string \<Rightarrow> bot \<Rightarrow> filesystem \<Rightarrow> filesystem" where
  "save_stats path b fs =
     (case open_w path fs of
        Inl e \<Rightarrow> fs
      | Inr fs1 \<Rightarrow> snd (json_dump (stats_to_json (stats b)) path fs1))"

definition load_stats :: "string \<Rightarrow> bot \<Rightarrow> filesystem \<Rightarrow> bot loaded" where
  "load_stats path b fs =
     (case json_load path fs of
        Inl e \<Rightarrow> Loaded b
      | Inr j \<Rightarrow> (case stats_of_json j of None \<Rightarrow> Foreign j | Some st \<Rightarrow> Loaded (b\<lparr>stats := st\<rparr>)))"

definition save_qa_log :: "string \<Rightarrow> bot \<Rightarrow> filesystem \<Rightarrow> filesystem" where
  "save_qa_log path b fs =
     (case open_w path fs of
        Inl e \<Rightarrow> fs
      | Inr fs1 \<Rightarrow> snd (json_dump (qa_log_to_json (qa_log b)) path fs1))"

definition load_qa_log :: "string \<Rightarrow> bot \<Rightarrow> filesystem \<Rightarrow> bot loaded" where
  "load_qa_log path b fs =
     (case json_load path fs of
        Inl e \<Rightarrow> Loaded b
      | Inr j \<Rightarrow> (case qa_log_of_json j of None \<Rightarrow> Foreign j | Some l \<Rightarrow> Loaded (b\<lparr>qa_log := l\<rparr>)))"

subsection \<open>Handlers\<close>

text \<open>
  The replies sent to the user: the generated answer with the page it was retrieved
  from and the feedback keyboard, the error message of \<open>answer_query\<close>, and the two
  acknowledgements of \<open>feedback_callback\<close>. The calls into the Telegram library
  themselves are taken to succeed.
\<close>

datatype reply = AnswerReply int string | ErrorReply

datatype feedback_reply = ThanksCorrect | ThanksIncorrect

text \<open>
  \<open>answer_query\<close>: everything up to the reply runs inside \<open>try\<close>, so an exception of the
  search (also of \<open>[0]\<close> on an empty result) or of the generator leads to the error
  reply. The retrieval pipeline is the object the search may have changed.
\<close>

definition answer_query ::
    "(string list list \<Rightarrow> string list \<Rightarrow> nat \<Rightarrow> 's::linorder) \<Rightarrow> string option list \<Rightarrow> llm_pipeline
      \<Rightarrow> bot \<Rightarrow> string \<Rightarrow> (reply \<times> bot) option" where
  "answer_query scorer doc llm b user_query =
     (case search_query scorer doc (retrieval_pipeline b) user_query 1 of
        None \<Rightarrow> None
      | Some (Inl e, p1) \<Rightarrow> Some (ErrorReply, b\<lparr>retrieval_pipeline := p1\<rparr>)
      | Some (Inr [], p1) \<Rightarrow> Some (ErrorReply, b\<lparr>retrieval_pipeline := p1\<rparr>)
      | Some (Inr (retrieval_result # _), p1) \<Rightarrow>
          (let context_text = chunk retrieval_result;
               page_found = chunk_page retrieval_result
           in case generate_answer llm user_query context_text of
                Inl e \<Rightarrow> Some (ErrorReply, b\<lparr>retrieval_pipeline := p1\<rparr>)
              | Inr answer \<Rightarrow>
                  Some (AnswerReply page_found answer,
                        b\<lparr>retrieval_pipeline := p1,
                          stats := (stats b)\<lparr>total := total (stats b) + 1\<rparr>,
                          qa_log := qa_log b @
                            [\<lparr>query = user_query, retrieval_context = context_text,
                              retrieved_page = page_found, generated_answer = answer,
                              feedback = None\<rparr>]\<rparr>)))"

text \<open>
  \<open>feedback_callback\<close>: the counter is incremented first, then the last record is
  updated when it has no feedback yet, then both files are written.
\<close>

definition feedback_callback ::
    "bot \<Rightarrow> filesystem \<Rightarrow> string \<Rightarrow> feedback_reply \<times> bot \<times> filesystem" where
  "feedback_callback b fs data =
     (let (b1, feedback_value, response) =
            (if data = ''feedback_yes''
             then (b\<lparr>stats := (stats b)\<lparr>correct := correct (stats b) + 1\<rparr>\<rparr>,
                   ''yes'', ThanksCorrect)
             else (b\<lparr>stats := (stats b)\<lparr>incorrect := incorrect (stats b) + 1\<rparr>\<rparr>,
                   ''no'', ThanksIncorrect));
          b2 = (if qa_log b1 \<noteq> [] \<and> feedback (last (qa_log b1)) = None
                then b1\<lparr>qa_log := butlast (qa_log b1) @
                                    [(last (qa_log b1))\<lparr>feedback := Some feedback_value\<rparr>]\<rparr>
                else b1);
          fs1 = save_stats (stats_path b2) b2 fs;
          fs2 = save_qa_log (qa_log_path b2) b2 fs1
      in (response, b2, fs2))"

text \<open>
  The events the dispatcher hands to the two handlers, and the bot run on a sequence of
  them. \<open>None\<close> is a run in which a handler does not return.
\<close>

datatype event = Message string | Callback string

fun run ::
    "(string list list \<Rightarrow> string list \<Rightarrow> nat \<Rightarrow> 's::linorder) \<Rightarrow> string option list \<Rightarrow> llm_pipeline
      \<Rightarrow> event list \<Rightarrow> bot \<times> filesystem \<Rightarrow> (bot \<times> filesystem) option" where
  "run scorer doc llm [] st = Some st"
| "run scorer doc llm (Message t # evs) (b, fs) =
     (case answer_query scorer doc llm b t of
        None \<Rightarrow> None
      | Some (r, b') \<Rightarrow> run scorer doc llm evs (b', fs))"
| "run scorer doc llm (Callback d # evs) (b, fs) =
     (case feedback_callback b fs d of (r, b', fs') \<Rightarrow> run scorer doc llm evs (b', fs'))"

section \<open>The chunking rule in the words of the specification\<close>

text \<open>
  The window starts \<open>0, step, 2 * step, ...\<close> below the word count \<open>n\<close>; the chunks of
  given starts, each the \<open>window\<close> words from its start joined by single spaces and kept
  when longer than 20 characters; the chunks of a page; and the chunks of all pages,
  page after page.
\<close>

definition spec_window_starts :: "nat \<Rightarrow> nat \<Rightarrow> nat list" where
  "spec_window_starts n step = filter (\<lambda>s. s < n) (map (\<lambda>k. k * step) [0 ..< n])"

definition spec_window_chunks :: "nat \<Rightarrow> int \<Rightarrow> string list \<Rightarrow> nat list \<Rightarrow> chunk_dict list" where
  "spec_window_chunks window pg words starts =
     map (\<lambda>t. \<lparr>chunk_page = pg, chunk = t\<rparr>)
       (filter (\<lambda>t. length t > 20) (map (\<lambda>s. join_space (take window (drop s words))) starts))"

definition spec_page_chunks :: "nat \<Rightarrow> nat \<Rightarrow> page_dict \<Rightarrow> chunk_dict list" where
  "spec_page_chunks window ovl pg =
     (let words = str_split (page_text pg)
      in spec_window_chunks window (page pg) words
           (spec_window_starts (length words) (window - ovl)))"

definition spec_chunk :: "nat \<Rightarrow> nat \<Rightarrow> page_dict list \<Rightarrow> chunk_dict list" where
  "spec_chunk window ovl ps = concat (map (spec_page_chunks window ovl) ps)"

section \<open>Example data\<close>

text \<open>A page of five words whose last word alone is longer than 20 characters.\<close>

definition scenario_page :: page_dict where
  "scenario_page =
     \<lparr>page = 1,
      page_text = ''retrieval augmented generation pipeline electroencephalographically''\<rparr>"

definition scenario_pipeline :: pipeline where
  "scenario_pipeline = (PDFRAGPipeline 3 1)\<lparr>pages := Some [scenario_page]\<rparr>"

definition negative_overlap_pipeline :: pipeline where
  "negative_overlap_pipeline = (PDFRAGPipeline 3 (- 1))\<lparr>pages := Some [scenario_page]\<rparr>"

definition chunk_c0 :: chunk_dict where
  "chunk_c0 = \<lparr>chunk_page = 1, chunk = ''retrieval augmented generation''\<rparr>"

definition chunk_c2 :: chunk_dict where
  "chunk_c2 = \<lparr>chunk_page = 1, chunk = ''generation pipeline electroencephalographically''\<rparr>"

definition chunk_c4 :: chunk_dict where
  "chunk_c4 = \<lparr>chunk_page = 1, chunk = ''electroencephalographically''\<rparr>"

text \<open>
  A pipeline whose index is built over the three chunks of the example page, a scorer
  that counts the document's words occurring in the query, a generator that answers and
  one whose output is malformed, a generator that returns its prompt, a disk without
  files on which every write succeeds and a leading \<open>./\<close> of a path leads to the same
  file, and a bot before its first message and after one rated answer.
\<close>

definition built_pipeline :: pipeline where
  "built_pipeline =
     \<lparr>chunk_size = 3, overlap = 1, pages = Some [scenario_page],
      chunks = Some [chunk_c0, chunk_c2, chunk_c4],
      bm25 = Some (map (\<lambda>c. str_split (chunk c)) [chunk_c0, chunk_c2, chunk_c4])\<rparr>"

definition overlap_scorer :: "string list list \<Rightarrow> string list \<Rightarrow> nat \<Rightarrow> nat" where
  "overlap_scorer corpus query_tokens i = length (filter (\<lambda>w. w \<in> set query_tokens) (corpus ! i))"

definition answering_llm :: llm_pipeline where
  "answering_llm =
     \<lparr>model_pipeline = (\<lambda>prompt_text n sample. Inr [[(''generated_text'', '' a pipeline '')]]),
      max_length = 200, do_sample = False\<rparr>"

definition malformed_llm :: llm_pipeline where
  "malformed_llm =
     \<lparr>model_pipeline = (\<lambda>prompt_text n sample. Inr []), max_length = 200, do_sample = False\<rparr>"

definition strip_dot_slash :: "string \<Rightarrow> string" where
  "strip_dot_slash path = (if take 2 path = ''./'' then drop 2 path else path)"

definition empty_disk :: filesystem where
  "empty_disk =
     \<lparr>realpath = strip_dot_slash, files = (\<lambda>file. None), writable = (\<lambda>file. True),
      interrupted = (\<lambda>file. False)\<rparr>"

definition echo_llm :: llm_pipeline where
  "echo_llm =
     \<lparr>model_pipeline = (\<lambda>prompt_text n sample. Inr [[(''generated_text'', prompt_text)]]),
      max_length = 200, do_sample = False\<rparr>"

definition fresh_bot :: bot where
  "fresh_bot = TelegramRAGBot built_pipeline ''data/bot_stats.json'' ''data/bot_qa_log.json''"

definition rated_record :: qa_record where
  "rated_record =
     \<lparr>query = ''generation'', retrieval_context = chunk chunk_c0, retrieved_page = 1,
      generated_answer = ''a pipeline'', feedback = Some ''yes''\<rparr>"

definition rated_bot :: bot where
  "rated_bot =
     fresh_bot\<lparr>stats := \<lparr>total = 1, correct = 1, incorrect = 0\<rparr>, qa_log := [rated_record]\<rparr>"

section \<open>Chunking: the loop against the sliding-window rule\<close>

text \<open>
  The words of the whitespace split are non-empty and free of whitespace, and together
  they are the characters of the text that are not whitespace, in order.
\<close>

lemma split_from_words:
  "(\<forall>c \<in> set w. \<not> isspace c) \<Longrightarrow> v \<in> set (split_from w s)
     \<Longrightarrow> v \<noteq> [] \<and> (\<forall>c \<in> set v. \<not> isspace c)"
proof (induction s arbitrary: w)
  case Nil
  then show ?case by (simp split: if_splits)
next
  case (Cons c cs)
  show ?case
  proof (cases "isspace c")
    case True
    show ?thesis
    proof (cases "w = []")
      case True
      with \<open>isspace c\<close> Cons.prems(2) have "v \<in> set (split_from [] cs)" by simp
      then show ?thesis using Cons.IH[of "[]"] by simp
    next
      case False
      with \<open>isspace c\<close> Cons.prems(2) have "v = w \<or> v \<in> set (split_from [] cs)" by simp
      then show ?thesis using Cons.IH[of "[]"] False Cons.prems(1) by auto
    qed
  next
    case False
    with Cons.prems(2) have "v \<in> set (split_from (w @ [c]) cs)" by simp
    moreover have "\<forall>d \<in> set (w @ [c]). \<not> isspace d" using False Cons.prems(1) by simp
    ultimately show ?thesis using Cons.IH[of "w @ [c]"] by blast
  qed
qed

lemma concat_split_from:
  "concat (split_from w s) = w @ filter (\<lambda>c. \<not> isspace c) s"
  by (induction s arbitrary: w) simp_all

lemma str_split_words:
  "v \<in> set (str_split s) \<Longrightarrow> v \<noteq> [] \<and> (\<forall>c \<in> set v. \<not> isspace c)"
  using split_from_words[of "[]" v s] by (simp add: str_split_def)

lemma concat_str_split: "concat (str_split s) = filter (\<lambda>c. \<not> isspace c) s"
  by (simp add: str_split_def concat_split_from)

lemma slice_window: "0 \<le> s \<Longrightarrow> 0 < w \<Longrightarrow> slice xs s (s + w) = take (nat w) (drop (nat s) xs)"
  unfolding slice_def slice_bound_def Let_def
  by (auto simp: min_def take_all_iff nat_add_distrib)

lemma mult_step_less: "0 < (step::nat) \<Longrightarrow> k * step < n \<Longrightarrow> k < n"
  by (cases step) (auto simp: algebra_simps)

lemma mult_step_mono: "\<not> k * (step::nat) < n \<Longrightarrow> k \<le> j \<Longrightarrow> \<not> j * step < n"
proof -
  assume a: "\<not> k * step < n" and b: "k \<le> j"
  from b have "k * step \<le> j * step" by simp
  with a show ?thesis by linarith
qed

lemma split_loop_steps:
  assumes step: "0 < step" and cs_ov: "cs - ov = int step" and cs: "0 < cs"
  shows "split_loop cs ov pg words (int (k * step)) acc =
         Some (acc @ spec_window_chunks (nat cs) pg words
                 (filter (\<lambda>s. s < length words) (map (\<lambda>k. k * step) [k ..< length words])))"
proof (induction "length words - k" arbitrary: k acc rule: less_induct)
  case less
  show ?case
  proof (cases "k * step < length words")
    case True
    then have klt: "k < length words"
      using step mult_step_less by blast
    have up: "[k ..< length words] = k # [Suc k ..< length words]"
      using klt by (simp add: upt_conv_Cons)
    have nxt: "int (k * step) + (cs - ov) = int (Suc k * step)"
      by (simp add: cs_ov)
    have IH: "\<And>acc. split_loop cs ov pg words (int (Suc k * step)) acc =
         Some (acc @ spec_window_chunks (nat cs) pg words
                 (filter (\<lambda>s. s < length words) (map (\<lambda>k. k * step) [Suc k ..< length words])))"
      using less[of "Suc k"] klt by simp
    have sl: "slice words (int (k * step)) (int (k * step) + cs) = take (nat cs) (drop (k * step) words)"
    proof -
      have z: "0 \<le> int (k * step)" by simp
      show ?thesis using slice_window[OF z cs, of words] by (simp only: nat_int)
    qed
    have unf: "split_loop cs ov pg words (int (k * step)) acc =
        split_loop cs ov pg words (int (Suc k * step))
          (if length (join_space (take (nat cs) (drop (k * step) words))) > 20
           then acc @ [\<lparr>chunk_page = pg, chunk = join_space (take (nat cs) (drop (k * step) words))\<rparr>]
           else acc)"
    proof -
      have Ti: "int (k * step) < int (length words)" using True by (simp only: of_nat_less_iff)
      show ?thesis
        by (subst split_loop.simps) (simp only: Ti if_True nxt sl Let_def)
    qed
    show ?thesis
      unfolding unf IH up using True
      by (simp add: spec_window_chunks_def)
  next
    case False
    have e: "filter (\<lambda>s. s < length words) (map (\<lambda>k. k * step) [k ..< length words]) = []"
      using False mult_step_mono by (auto simp: filter_empty_conv)
    have Fi: "\<not> int (k * step) < int (length words)" using False by linarith
    have "split_loop cs ov pg words (int (k * step)) acc = Some acc"
      by (subst split_loop.simps) (simp only: Fi if_False)
    then show ?thesis
      by (simp add: e spec_window_chunks_def)
  qed
qed

lemma split_loop_page:
  assumes "0 \<le> ov" "ov < cs"
  shows "split_loop cs ov (page pg) (str_split (page_text pg)) 0 acc =
         Some (acc @ spec_page_chunks (nat cs) (nat ov) pg)"
proof -
  have a: "0 < nat cs - nat ov" using assms by linarith
  have b: "cs - ov = int (nat cs - nat ov)" using assms by linarith
  have c: "0 < cs" using assms by linarith
  show ?thesis
    using split_loop_steps[OF a b c, of "page pg" "str_split (page_text pg)" 0 acc]
    by (simp add: spec_page_chunks_def spec_window_starts_def Let_def)
qed

lemma split_for_spec:
  assumes "0 \<le> ov" "ov < cs"
  shows "split_for cs ov ps acc = Some (acc @ spec_chunk (nat cs) (nat ov) ps)"
proof (induction ps arbitrary: acc)
  case Nil
  show ?case by (simp add: spec_chunk_def)
next
  case (Cons pg ps)
  show ?case
    by (simp add: split_loop_page[OF assms] Cons spec_chunk_def)
qed

lemma split_pages_spec:
  assumes "0 \<le> overlap p" and "overlap p < chunk_size p"
  shows "split_pages doc p =
           (let ps = (case pages p of None \<Rightarrow> extract_loop doc | Some ps \<Rightarrow> ps);
                cs = spec_chunk (nat (chunk_size p)) (nat (overlap p)) ps
            in Some (cs, p\<lparr>pages := Some ps, chunks := Some cs\<rparr>))"
proof (cases "pages p")
  case None
  then show ?thesis
    by (simp add: split_pages_def extract_pages_def Let_def split_for_spec[OF assms])
next
  case (Some ps)
  have "p\<lparr>pages := Some ps\<rparr> = p" using Some by simp
  then show ?thesis using Some
    by (simp add: split_pages_def Let_def split_for_spec[OF assms])
qed

text \<open>Termination of the loop for every positive step, and its divergence otherwise.\<close>

lemma split_loop_returns:
  assumes "0 < cs - ov"
  shows "\<exists>r. split_loop cs ov pg words start acc = Some r"
proof (induction "nat (int (length words) - start)" arbitrary: start acc rule: less_induct)
  case less
  show ?case
  proof (cases "start < int (length words)")
    case True
    have "nat (int (length words) - (start + (cs - ov))) < nat (int (length words) - start)"
      using True assms by linarith
    from less[OF this] obtain r where
      "split_loop cs ov pg words (start + (cs - ov))
         (let chunk_words = slice words start (start + cs);
              chunk_text = join_space chunk_words
          in if length chunk_text > 20
             then acc @ [\<lparr>chunk_page = pg, chunk = chunk_text\<rparr>] else acc) = Some r"
      by blast
    then show ?thesis
      by (subst split_loop.simps) (simp only: True if_True Let_def, blast)
  next
    case False
    then show ?thesis
      by (subst split_loop.simps) (simp only: if_False, blast)
  qed
qed

lemma split_for_returns:
  assumes "0 < cs - ov"
  shows "\<exists>r. split_for cs ov ps acc = Some r"
proof (induction ps arbitrary: acc)
  case Nil
  show ?case by simp
next
  case (Cons pg ps)
  obtain r where "split_loop cs ov (page pg) (str_split (page_text pg)) 0 acc = Some r"
    using split_loop_returns[OF assms] by blast
  then show ?case using Cons by simp
qed

lemma split_pages_returns:
  assumes "0 < chunk_size p - overlap p"
  shows "\<exists>cs p'. split_pages doc p = Some (cs, p') \<and> chunks p' = Some cs"
proof (cases "pages p")
  case None
  obtain r where "split_for (chunk_size p) (overlap p) (extract_loop doc) [] = Some r"
    using split_for_returns[OF assms] by blast
  then show ?thesis using None
    by (simp add: split_pages_def extract_pages_def Let_def)
next
  case (Some ps)
  obtain r where "split_for (chunk_size p) (overlap p) ps [] = Some r"
    using split_for_returns[OF assms] by blast
  then show ?thesis using Some
    by (simp add: split_pages_def)
qed

lemma split_loop_diverges_aux:
  assumes "split_loop cs ov pg words start acc = Some r"
  shows "\<not> (cs - ov \<le> 0 \<and> start < int (length words))"
proof (rule split_loop.raw_induct
         [where P = "\<lambda>cs ov pg words start acc r. \<not> (cs - ov \<le> 0 \<and> start < int (length words))",
          OF _ assms])
  fix f :: "int \<Rightarrow> int \<Rightarrow> int \<Rightarrow> string list \<Rightarrow> int \<Rightarrow> chunk_dict list \<Rightarrow> chunk_dict list option"
  fix cs ov pg :: int and words :: "string list" and start :: int
    and acc r :: "chunk_dict list"
  assume IH: "\<And>cs ov pg words start acc r. f cs ov pg words start acc = Some r
                \<Longrightarrow> \<not> (cs - ov \<le> 0 \<and> start < int (length words))"
  assume body: "(if start < int (length words)
      then let chunk_words = slice words start (start + cs);
               chunk_text = join_space chunk_words
           in Let (if 20 < length chunk_text
                   then acc @ [\<lparr>chunk_page = pg, chunk = chunk_text\<rparr>]
                   else acc)
               (f cs ov pg words (start + (cs - ov)))
      else Some acc) = Some r"
  show "\<not> (cs - ov \<le> 0 \<and> start < int (length words))"
  proof
    assume a: "cs - ov \<le> 0 \<and> start < int (length words)"
    then have b: "cs - ov \<le> 0 \<and> start + (cs - ov) < int (length words)" by linarith
    from a body obtain acc' where "f cs ov pg words (start + (cs - ov)) acc' = Some r"
      by (simp add: Let_def)
    from IH[OF this] b show False by blast
  qed
qed

lemma split_loop_diverges:
  "cs - ov \<le> 0 \<Longrightarrow> start < int (length words) \<Longrightarrow> split_loop cs ov pg words start acc = None"
  using split_loop_diverges_aux[of cs ov pg words start acc] by (cases "split_loop cs ov pg words start acc") auto

lemma scenario_words:
  "str_split (page_text scenario_page) =
     [''retrieval'', ''augmented'', ''generation'', ''pipeline'', ''electroencephalographically'']"
  by (simp add: scenario_page_def str_split_def isspace_def)

lemma scenario_spec_chunk:
  "spec_chunk 3 1 [scenario_page] = [chunk_c0, chunk_c2, chunk_c4]"
  by (simp add: spec_chunk_def spec_page_chunks_def scenario_words spec_window_starts_def
        spec_window_chunks_def upt_conv_Cons chunk_c0_def chunk_c2_def chunk_c4_def)
     (simp add: scenario_page_def)

lemma scenario_chunks:
  "map_option fst (split_pages [] scenario_pipeline) = Some [chunk_c0, chunk_c2, chunk_c4]"
proof -
  have a: "0 \<le> overlap scenario_pipeline"
    by (simp add: scenario_pipeline_def PDFRAGPipeline_def)
  have b: "overlap scenario_pipeline < chunk_size scenario_pipeline"
    by (simp add: scenario_pipeline_def PDFRAGPipeline_def)
  show ?thesis
    using split_pages_spec[OF a b, of "[]"] scenario_spec_chunk
    by (simp add: scenario_pipeline_def PDFRAGPipeline_def Let_def)
qed

lemma negative_overlap_chunks:
  "map_option fst (split_pages [] negative_overlap_pipeline) = Some [chunk_c0, chunk_c4]"
proof -
  have "split_loop 3 (- 1) 1 (str_split (page_text scenario_page)) (int (0 * 4)) [] =
        Some ([] @ spec_window_chunks (nat 3) 1 (str_split (page_text scenario_page))
               (filter (\<lambda>s. s < length (str_split (page_text scenario_page)))
                  (map (\<lambda>k. k * 4) [0 ..< length (str_split (page_text scenario_page))])))"
    by (rule split_loop_steps) simp_all
  then have "split_loop 3 (- 1) 1 (str_split (page_text scenario_page)) 0 [] =
        Some [chunk_c0, chunk_c4]"
    by (simp add: scenario_words spec_window_chunks_def upt_conv_Cons chunk_c0_def chunk_c4_def)
  then show ?thesis
    by (simp add: split_pages_def negative_overlap_pipeline_def PDFRAGPipeline_def)
       (simp add: scenario_page_def)
qed

text \<open>
  Claim C3, as amended. For every configuration with \<open>0 \<le> overlap < window\<close>,
  \<open>split_pages\<close> returns exactly the chunks of the sliding-window rule: per page, the
  words of the whitespace split, windows of \<open>window\<close> words at the starts
  \<open>0, step, 2 * step, ...\<close> below the word count with \<open>step = window - overlap\<close>, joined by
  single spaces, those longer than 20 characters kept, in window order and page after
  page. For a 5-word page with window 3 and overlap 1 the starts are 0, 2 and 4.
\<close>

theorem split_pages_sliding_window:
  assumes "0 \<le> overlap p" and "overlap p < chunk_size p"
  shows "split_pages doc p =
           (let ps = (case pages p of None \<Rightarrow> extract_loop doc | Some ps \<Rightarrow> ps);
                cs = spec_chunk (nat (chunk_size p)) (nat (overlap p)) ps
            in Some (cs, p\<lparr>pages := Some ps, chunks := Some cs\<rparr>))
         \<and> spec_window_starts 5 (3 - 1) = [0, 2, 4]"
proof
  show "spec_window_starts 5 (3 - 1) = [0, 2, 4]"
    by (simp add: spec_window_starts_def upt_conv_Cons)
qed (rule split_pages_spec[OF assms])

theorem split_pages_sliding_window_witness:
  "0 \<le> overlap scenario_pipeline \<and> overlap scenario_pipeline < chunk_size scenario_pipeline
   \<and> split_pages [] scenario_pipeline =
       Some ([chunk_c0, chunk_c2, chunk_c4],
             scenario_pipeline\<lparr>chunks := Some [chunk_c0, chunk_c2, chunk_c4]\<rparr>)"
proof -
  have a: "0 \<le> overlap scenario_pipeline"
    by (simp add: scenario_pipeline_def PDFRAGPipeline_def)
  have b: "overlap scenario_pipeline < chunk_size scenario_pipeline"
    by (simp add: scenario_pipeline_def PDFRAGPipeline_def)
  show ?thesis
    using a b scenario_spec_chunk split_pages_sliding_window[OF a b, of "[]"]
    by (simp add: scenario_pipeline_def PDFRAGPipeline_def Let_def)
qed

text \<open>
  The example of claim C3 as stated, windows at the word offsets 0 and 2 only, fails on
  the five-word example page: the loop also takes the window at offset 4, whose single
  word is long enough to be emitted.
\<close>

theorem split_pages_two_windows_counterexample:
  "length (str_split (page_text scenario_page)) = 5
   \<and> chunk_size scenario_pipeline = 3 \<and> overlap scenario_pipeline = 1
   \<and> map_option fst (split_pages [] scenario_pipeline) = Some [chunk_c0, chunk_c2, chunk_c4]
   \<and> map_option fst (split_pages [] scenario_pipeline)
       \<noteq> Some (spec_window_chunks 3 1 (str_split (page_text scenario_page)) [0, 2])"
  by (simp add: scenario_chunks scenario_words spec_window_chunks_def)
     (simp add: scenario_pipeline_def PDFRAGPipeline_def)

text \<open>
  Claim C6, as amended. \<open>split_pages\<close> validates nothing: for every configuration with
  \<open>window - overlap > 0\<close>, a negative overlap included, it returns a chunk list and
  stores it.
\<close>

theorem split_pages_never_rejects:
  assumes "0 < chunk_size p - overlap p"
  shows "\<exists>cs p'. split_pages doc p = Some (cs, p') \<and> chunks p' = Some cs"
  using split_pages_returns[OF assms] .

theorem split_pages_never_rejects_witness:
  "0 < chunk_size negative_overlap_pipeline - overlap negative_overlap_pipeline
   \<and> overlap negative_overlap_pipeline < 0
   \<and> (\<exists>cs p'. split_pages [] negative_overlap_pipeline = Some (cs, p') \<and> chunks p' = Some cs)"
proof -
  have a: "0 < chunk_size negative_overlap_pipeline - overlap negative_overlap_pipeline"
    by (simp add: negative_overlap_pipeline_def PDFRAGPipeline_def)
  have b: "overlap negative_overlap_pipeline < 0"
    by (simp add: negative_overlap_pipeline_def PDFRAGPipeline_def)
  show ?thesis using a b split_pages_never_rejects[OF a, of "[]"] by simp
qed

text \<open>
  Claim C6 as stated fails: window 3 with overlap \<open>-1\<close> violates
  \<open>0 \<le> overlap < window\<close>, and chunking goes ahead and produces two chunks.
\<close>

theorem split_pages_rejects_counterexample:
  "\<not> (0 \<le> overlap negative_overlap_pipeline
        \<and> overlap negative_overlap_pipeline < chunk_size negative_overlap_pipeline)
   \<and> map_option fst (split_pages [] negative_overlap_pipeline) = Some [chunk_c0, chunk_c4]"
  by (simp add: negative_overlap_chunks) (simp add: negative_overlap_pipeline_def PDFRAGPipeline_def)

section \<open>Extraction\<close>

text \<open>
  \<open>extract_pages\<close> numbers a page by its position in the document: every emitted entry
  comes from the physical page of its number.
\<close>

lemma extract_loop_physical:
  assumes "pg \<in> set (extract_loop doc)"
  shows "\<exists>i s. i < length doc \<and> doc ! i = Some s \<and> s \<noteq> []
           \<and> page pg = int i + 1 \<and> page_text pg = strip s"
proof -
  from assms obtain i t where it: "(i, t) \<in> set (enumerate_list doc)"
    and pg: "pg \<in> set (case t of None \<Rightarrow> []
                        | Some s \<Rightarrow> if s \<noteq> [] then [\<lparr>page = int i + 1, page_text = strip s\<rparr>] else [])"
    by (auto simp: extract_loop_def)
  from it have i: "i < length doc" and t: "doc ! i = t"
    by (auto simp: enumerate_list_def in_set_zip)
  from pg obtain s where "t = Some s" "s \<noteq> []" "pg = \<lparr>page = int i + 1, page_text = strip s\<rparr>"
    by (cases t) (auto split: if_splits)
  with i t show ?thesis by auto
qed

text \<open>
  Claim C5, at its failing inputs. For a three-page document whose second page has no
  text, \<open>extract_pages_pdfminer\<close> gives the third page the number 2: the form feeds of
  pages 1 and 2 are one separator for \<open>\f+\<close>. For a document whose second page holds a
  single space, \<open>extract_pages\<close> emits that page, with empty text: it tests the text
  before stripping it.
\<close>

theorem extraction_page_numbers_at_failing_input:
  "fst (extract_pages_pdfminer
          (pdfminer_extract_text [''Annual report'', '''', ''Risk factors''])
          (PDFRAGPipeline 1000 50))
     = [\<lparr>page = 1, page_text = ''Annual report''\<rparr>, \<lparr>page = 2, page_text = ''Risk factors''\<rparr>]
   \<and> fst (extract_pages [Some ''Annual report'', Some '' '', Some ''Risk factors'']
            (PDFRAGPipeline 1000 50))
     = [\<lparr>page = 1, page_text = ''Annual report''\<rparr>, \<lparr>page = 2, page_text = ''''\<rparr>,
        \<lparr>page = 3, page_text = ''Risk factors''\<rparr>]"
  by code_simp

section \<open>Search\<close>


lemma set_slice_subset: "set (slice xs i j) \<subseteq> set xs"
  by (auto simp: slice_def Let_def dest: in_set_takeD in_set_dropD)





lemma set_top_indices: "set (top_indices scores top_k) \<subseteq> {..< length scores}"
proof -
  have "set (top_indices scores top_k) \<subseteq> set (sorted_reverse (\<lambda>i. scores ! i) [0 ..< length scores])"
    unfolding top_indices_def by (rule set_slice_subset)
  then show ?thesis by (auto simp: sorted_reverse_def)
qed




lemma search_query_built:
  assumes "chunks p = Some cs" and "bm25 p = Some (map (\<lambda>c. str_split (chunk c)) cs)"
  shows "search_query scorer doc p q top_k =
           Some (Inr (map (\<lambda>i. cs ! i)
                        (top_indices (get_scores scorer (map (\<lambda>c. str_split (chunk c)) cs)
                                        (str_split q)) top_k)), p)"
proof -
  let ?scores = "get_scores scorer (map (\<lambda>c. str_split (chunk c)) cs) (str_split q)"
  have "length ?scores = length cs" by (simp add: get_scores_def)
  with set_top_indices[of ?scores top_k]
  have "list_all (\<lambda>i. i < length cs) (top_indices ?scores top_k)"
    by (auto simp: list_all_iff)
  then show ?thesis using assms by (simp add: search_query_def Let_def)
qed






text \<open>
  Claim C9. Once pages, chunks and index are built, \<open>search_query\<close> returns, for every
  query and every \<open>top_k\<close>, a list whose elements are stored chunks, and leaves the
  pipeline as it was.
\<close>

theorem search_query_read_only:
  assumes "pages p = Some ps" and "chunks p = Some cs"
    and "bm25 p = Some (map (\<lambda>c. str_split (chunk c)) cs)"
  shows "\<exists>res. search_query scorer doc p q top_k = Some (Inr res, p) \<and> set res \<subseteq> set cs"
proof -
  let ?scores = "get_scores scorer (map (\<lambda>c. str_split (chunk c)) cs) (str_split q)"
  have "length ?scores = length cs" by (simp add: get_scores_def)
  with set_top_indices[of ?scores top_k]
  have "set (map (\<lambda>i. cs ! i) (top_indices ?scores top_k)) \<subseteq> set cs" by auto
  with search_query_built[OF assms(2,3), of scorer doc q top_k] show ?thesis by blast
qed

theorem search_query_read_only_witness:
  "pages built_pipeline = Some [scenario_page]
   \<and> chunks built_pipeline = Some [chunk_c0, chunk_c2, chunk_c4]
   \<and> bm25 built_pipeline = Some (map (\<lambda>c. str_split (chunk c)) [chunk_c0, chunk_c2, chunk_c4])
   \<and> (\<exists>res. search_query overlap_scorer [] built_pipeline ''generation'' (- 1)
               = Some (Inr res, built_pipeline)
         \<and> set res \<subseteq> set [chunk_c0, chunk_c2, chunk_c4])"
proof -
  have p: "pages built_pipeline = Some [scenario_page]"
    by (simp add: built_pipeline_def)
  have a: "chunks built_pipeline = Some [chunk_c0, chunk_c2, chunk_c4]"
    by (simp add: built_pipeline_def)
  have b: "bm25 built_pipeline
             = Some (map (\<lambda>c. str_split (chunk c)) [chunk_c0, chunk_c2, chunk_c4])"
    by (simp add: built_pipeline_def)
  show ?thesis
    using p a b search_query_read_only[OF p a b, of overlap_scorer "[]" "''generation''" "- 1"]
    by simp
qed

section \<open>The grounding prompt\<close>

text \<open>
  Claim C10. For every query and every context, the empty one included, the prompt
  contains the instruction to say "I don't know." when the answer is not in the context,
  the context and the query, each verbatim, and the generator is called with the text
  that consists of the fixed preamble with that instruction, the context, the question
  heading, the query and the answer heading.
\<close>

theorem prompt_grounding:
  \<open>sublist ''If the answer is not contained in the context, say "I don't know."'' (prompt q c)
   \<and> sublist c (prompt q c) \<and> sublist q (prompt q c)
   \<and> sublist ''If the answer is not contained in the context, say "I don't know."'' (prompt q [])
   \<and> generate_answer llm q c =
       (case model_pipeline llm
               (''Use the following context extracted from the document to answer the question.\<newline>If the answer is not contained in the context, say "I don't know."\<newline>\<newline>Context:\<newline>''
                @ c @ ''\<newline>\<newline>Question:\<newline>'' @ q @ ''\<newline>\<newline>Answer:'')
               (max_length llm) (do_sample llm) of
          Inl e \<Rightarrow> Inl e | Inr result \<Rightarrow> generated_text result)\<close>
proof -
  have split_preamble:
    \<open>''Use the following context extracted from the document to answer the question.\<newline>If the answer is not contained in the context, say "I don't know."\<newline>\<newline>Context:\<newline>''
      = ''Use the following context extracted from the document to answer the question.\<newline>''
        @ ''If the answer is not contained in the context, say "I don't know."''
        @ ''\<newline>\<newline>Context:\<newline>''\<close>
    by simp
  have i: \<open>\<And>c. sublist ''If the answer is not contained in the context, say "I don't know."''
              (prompt q c)\<close>
  proof -
    fix c
    have \<open>prompt q c =
        ''Use the following context extracted from the document to answer the question.\<newline>''
        @ ''If the answer is not contained in the context, say "I don't know."''
        @ (''\<newline>\<newline>Context:\<newline>'' @ c @ ''\<newline>\<newline>Question:\<newline>'' @ q @ ''\<newline>\<newline>Answer:'')\<close>
      unfolding prompt_def by (subst split_preamble) (simp only: append_assoc)
    then show \<open>sublist ''If the answer is not contained in the context, say "I don't know."''
                 (prompt q c)\<close>
      by (simp only: sublist_appendI)
  qed
  have ctx: "sublist c (prompt q c)"
    unfolding prompt_def by (rule sublist_appendI)
  have \<open>prompt q c =
      (''Use the following context extracted from the document to answer the question.\<newline>If the answer is not contained in the context, say "I don't know."\<newline>\<newline>Context:\<newline>''
       @ c @ ''\<newline>\<newline>Question:\<newline>'')
      @ q @ ''\<newline>\<newline>Answer:''\<close>
    by (simp only: prompt_def append_assoc)
  then have qu: "sublist q (prompt q c)" by (simp only: sublist_appendI)
  have call: \<open>generate_answer llm q c =
       (case model_pipeline llm
               (''Use the following context extracted from the document to answer the question.\<newline>If the answer is not contained in the context, say "I don't know."\<newline>\<newline>Context:\<newline>''
                @ c @ ''\<newline>\<newline>Question:\<newline>'' @ q @ ''\<newline>\<newline>Answer:'')
               (max_length llm) (do_sample llm) of
          Inl e \<Rightarrow> Inl e | Inr result \<Rightarrow> generated_text result)\<close>
    by (simp only: generate_answer_def prompt_def)
  from i[of c] ctx qu i[of "[]"] call show ?thesis by (intro conjI)
qed

text \<open>A generator that returns its prompt shows the text it was called with.\<close>

lemma echo_prompt_example:
  \<open>generate_answer echo_llm ''Who?'' ''Chunk.'' =
     Inr ''Use the following context extracted from the document to answer the question.\<newline>If the answer is not contained in the context, say "I don't know."\<newline>\<newline>Context:\<newline>Chunk.\<newline>\<newline>Question:\<newline>Who?\<newline>\<newline>Answer:''\<close>
  by code_simp

section \<open>The feedback ledger\<close>

lemma rated_bot_feedback:
  "feedback_callback rated_bot empty_disk ''feedback_yes'' =
     (ThanksCorrect,
      rated_bot\<lparr>stats := \<lparr>total = 1, correct = 2, incorrect = 0\<rparr>\<rparr>,
      empty_disk\<lparr>files :=
        (files empty_disk)
          (''data/bot_stats.json'' \<mapsto>
             JsonText (stats_to_json \<lparr>total = 1, correct = 2, incorrect = 0\<rparr>),
           ''data/bot_qa_log.json'' \<mapsto> JsonText (qa_log_to_json [rated_record]))\<rparr>)"
  by (simp add: feedback_callback_def rated_bot_def fresh_bot_def TelegramRAGBot_def
        rated_record_def save_stats_def save_qa_log_def open_w_def json_dump_def empty_disk_def
        strip_dot_slash_def)

text \<open>
  Claim C1, as amended. When the last record of the log is already rated, a feedback
  event is answered with the ordinary acknowledgement of its verdict, and it leaves the
  QA log, that record's feedback included, and \<open>total\<close> unchanged.
\<close>

theorem feedback_on_rated_record:
  assumes "qa_log b \<noteq> []" and "feedback (last (qa_log b)) \<noteq> None"
  shows "\<exists>b' fs'. feedback_callback b fs d =
             (if d = ''feedback_yes'' then ThanksCorrect else ThanksIncorrect, b', fs')
           \<and> qa_log b' = qa_log b \<and> total (stats b') = total (stats b)"
  using assms by (auto simp: feedback_callback_def Let_def)

theorem feedback_on_rated_record_witness:
  "qa_log rated_bot \<noteq> [] \<and> feedback (last (qa_log rated_bot)) \<noteq> None
   \<and> (\<exists>b' fs'. feedback_callback rated_bot empty_disk ''feedback_yes'' =
             (if ''feedback_yes'' = ''feedback_yes'' then ThanksCorrect else ThanksIncorrect, b', fs')
           \<and> qa_log b' = qa_log rated_bot \<and> total (stats b') = total (stats rated_bot))"
proof -
  have a: "qa_log rated_bot \<noteq> []" by (simp add: rated_bot_def)
  have b: "feedback (last (qa_log rated_bot)) \<noteq> None"
    by (simp add: rated_bot_def rated_record_def)
  show ?thesis
    using a b feedback_on_rated_record[OF a b, of empty_disk "''feedback_yes''"] by blast
qed

text \<open>
  Claim C1 as stated fails: on a bot whose only record is rated \<open>"yes"\<close>, a second
  \<open>feedback_yes\<close> is acknowledged like the first and raises \<open>correct\<close> from 1 to 2.
\<close>

theorem feedback_conflict_counterexample:
  "feedback (last (qa_log rated_bot)) = Some ''yes''
   \<and> fst (feedback_callback rated_bot empty_disk ''feedback_yes'') = ThanksCorrect
   \<and> stats rated_bot = \<lparr>total = 1, correct = 1, incorrect = 0\<rparr>
   \<and> stats (fst (snd (feedback_callback rated_bot empty_disk ''feedback_yes'')))
       = \<lparr>total = 1, correct = 2, incorrect = 0\<rparr>"
  by (simp add: rated_bot_feedback) (simp add: rated_bot_def rated_record_def)

text \<open>
  Both handlers keep \<open>total\<close> equal to the length of the QA log, so every run from a
  state where the two agree ends in such a state.
\<close>

lemma answer_query_total:
  assumes "answer_query scorer doc llm b t = Some (r, b')"
    and "total (stats b) = int (length (qa_log b))"
  shows "total (stats b') = int (length (qa_log b'))"
  using assms
  by (auto simp: answer_query_def Let_def split: option.splits sum.splits list.splits prod.splits)

lemma feedback_callback_total:
  assumes "feedback_callback b fs d = (r, b', fs')"
    and "total (stats b) = int (length (qa_log b))"
  shows "total (stats b') = int (length (qa_log b'))"
  using assms
  by (auto simp: feedback_callback_def Let_def split: if_splits)

lemma run_total:
  assumes "run scorer doc llm evs (b, fs) = Some (b', fs')"
    and "total (stats b) = int (length (qa_log b))"
  shows "total (stats b') = int (length (qa_log b'))"
  using assms
proof (induction evs arbitrary: b fs)
  case Nil
  then show ?case by simp
next
  case (Cons ev evs)
  show ?case
  proof (cases ev)
    case (Message t)
    with Cons.prems(1) obtain r b1 where
      aq: "answer_query scorer doc llm b t = Some (r, b1)"
      and rest: "run scorer doc llm evs (b1, fs) = Some (b', fs')"
      by (auto split: option.splits)
    from Cons.IH[OF rest answer_query_total[OF aq Cons.prems(2)]] show ?thesis .
  next
    case (Callback d)
    obtain r b1 fs1 where fc: "feedback_callback b fs d = (r, b1, fs1)"
      by (cases "feedback_callback b fs d") auto
    with Cons.prems(1) Callback have rest: "run scorer doc llm evs (b1, fs1) = Some (b', fs')"
      by simp
    from Cons.IH[OF rest feedback_callback_total[OF fc Cons.prems(2)]] show ?thesis .
  qed
qed

text \<open>
  Claim C2, at its failing inputs. From the initial state, one \<open>feedback_yes\<close> event
  gives \<open>correct = 1\<close> with \<open>total = 0\<close>; one answered message followed by two
  \<open>feedback_yes\<close> events gives \<open>correct = 2\<close> with \<open>total = 1\<close> and one record.
\<close>

theorem ledger_counters_at_failing_input:
  "map_option (\<lambda>st. stats (fst st))
     (run overlap_scorer [] answering_llm [Callback ''feedback_yes''] (fresh_bot, empty_disk))
     = Some \<lparr>total = 0, correct = 1, incorrect = 0\<rparr>
   \<and> map_option (\<lambda>st. (stats (fst st), length (qa_log (fst st))))
       (run overlap_scorer [] answering_llm
          [Message ''generation'', Callback ''feedback_yes'', Callback ''feedback_yes'']
          (fresh_bot, empty_disk))
     = Some (\<lparr>total = 1, correct = 2, incorrect = 0\<rparr>, 1)"
  by code_simp

text \<open>
  \<open>generate_answer\<close> fails exactly when the generator raises, returns an empty list, or
  returns a first dictionary without the key \<open>generated_text\<close>.
\<close>

lemma generate_answer_failure_cases:
  "generate_answer llm q c = Inl e \<longleftrightarrow>
     model_pipeline llm (prompt q c) (max_length llm) (do_sample llm) = Inl e
     \<or> (model_pipeline llm (prompt q c) (max_length llm) (do_sample llm) = Inr [] \<and> e = IndexError)
     \<or> (\<exists>d ds. model_pipeline llm (prompt q c) (max_length llm) (do_sample llm) = Inr (d # ds)
           \<and> map_of d ''generated_text'' = None \<and> e = KeyError)"
  by (auto simp: generate_answer_def generated_text_def split: sum.splits list.splits option.splits)

lemma fresh_bot_search:
  "search_query overlap_scorer [] (retrieval_pipeline fresh_bot) ''generation'' 1
     = Some (Inr (chunk_c0 # []), built_pipeline)"
  by code_simp

lemma malformed_generation:
  "generate_answer malformed_llm ''generation'' (chunk chunk_c0) = Inl IndexError"
  by (simp add: generate_answer_def malformed_llm_def generated_text_def)

text \<open>
  Claim C7. When the search has found a chunk and the call of the generator fails, by
  raising or by returning malformed output, \<open>answer_query\<close> returns with the error reply,
  appends no record and leaves the statistics unchanged.
\<close>

theorem generation_failure_atomic:
  assumes "search_query scorer doc (retrieval_pipeline b) t 1 = Some (Inr (r # rs), p1)"
    and "generate_answer llm t (chunk r) = Inl e"
  shows "\<exists>b'. answer_query scorer doc llm b t = Some (ErrorReply, b')
           \<and> stats b' = stats b \<and> qa_log b' = qa_log b"
  using assms by (simp add: answer_query_def Let_def)

theorem generation_failure_atomic_witness:
  "search_query overlap_scorer [] (retrieval_pipeline fresh_bot) ''generation'' 1
     = Some (Inr (chunk_c0 # []), built_pipeline)
   \<and> generate_answer malformed_llm ''generation'' (chunk chunk_c0) = Inl IndexError
   \<and> (\<exists>b'. answer_query overlap_scorer [] malformed_llm fresh_bot ''generation''
              = Some (ErrorReply, b')
         \<and> stats b' = stats fresh_bot \<and> qa_log b' = qa_log fresh_bot)"
  using fresh_bot_search malformed_generation
    generation_failure_atomic[OF fresh_bot_search malformed_generation]
  by blast

section \<open>Persistence\<close>

lemma stats_round_trip: "stats_of_json (stats_to_json st) = Some st"
  by (simp add: stats_of_json_def stats_to_json_def dict_get_def insert_commute)

lemma feedback_round_trip:
  "feedback_of_json (case f of None \<Rightarrow> JNull | Some v \<Rightarrow> JStr v) = Some f"
  by (cases f) (simp_all add: feedback_of_json_def)

lemma qa_record_round_trip: "qa_record_of_json (qa_record_to_json r) = Some r"
  by (simp add: qa_record_of_json_def qa_record_to_json_def dict_get_def feedback_round_trip)

lemma those_records_round_trip: "those_records (map qa_record_to_json l) = Some l"
  by (induction l) (simp_all add: qa_record_round_trip)

lemma qa_log_round_trip: "qa_log_of_json (qa_log_to_json l) = Some l"
  by (simp add: qa_log_of_json_def qa_log_to_json_def those_records_round_trip)

text \<open>
  Claim C8. For every ledger state, saving the statistics and the QA log, each save
  succeeding and the two paths leading to different files, and loading both into a newly
  constructed bot gives that bot the saved statistics and the saved QA log.
\<close>

theorem persistence_round_trip:
  assumes "writable fs (realpath fs sp)" and "\<not> interrupted fs (realpath fs sp)"
    and "writable fs (realpath fs qp)" and "\<not> interrupted fs (realpath fs qp)"
    and "realpath fs sp \<noteq> realpath fs qp"
  shows "load_stats sp (TelegramRAGBot rp sp' qp') (save_qa_log qp b (save_stats sp b fs))
           = Loaded ((TelegramRAGBot rp sp' qp')\<lparr>stats := stats b\<rparr>)
         \<and> load_qa_log qp ((TelegramRAGBot rp sp' qp')\<lparr>stats := stats b\<rparr>)
               (save_qa_log qp b (save_stats sp b fs))
           = Loaded ((TelegramRAGBot rp sp' qp')\<lparr>stats := stats b, qa_log := qa_log b\<rparr>)"
  using assms
  by (simp add: load_stats_def load_qa_log_def save_stats_def save_qa_log_def open_w_def
        json_dump_def json_load_def stats_round_trip qa_log_round_trip)

theorem persistence_round_trip_witness:
  "writable empty_disk (realpath empty_disk ''data/bot_stats.json'')
   \<and> \<not> interrupted empty_disk (realpath empty_disk ''data/bot_stats.json'')
   \<and> writable empty_disk (realpath empty_disk ''data/bot_qa_log.json'')
   \<and> \<not> interrupted empty_disk (realpath empty_disk ''data/bot_qa_log.json'')
   \<and> realpath empty_disk ''data/bot_stats.json'' \<noteq> realpath empty_disk ''data/bot_qa_log.json''
   \<and> load_stats ''data/bot_stats.json'' fresh_bot
        (save_qa_log ''data/bot_qa_log.json'' rated_bot
           (save_stats ''data/bot_stats.json'' rated_bot empty_disk))
      = Loaded (fresh_bot\<lparr>stats := stats rated_bot\<rparr>)
   \<and> load_qa_log ''data/bot_qa_log.json'' (fresh_bot\<lparr>stats := stats rated_bot\<rparr>)
        (save_qa_log ''data/bot_qa_log.json'' rated_bot
           (save_stats ''data/bot_stats.json'' rated_bot empty_disk))
      = Loaded (fresh_bot\<lparr>stats := stats rated_bot, qa_log := qa_log rated_bot\<rparr>)"
proof -
  have a: "writable empty_disk (realpath empty_disk ''data/bot_stats.json'')"
    by (simp add: empty_disk_def)
  have a': "\<not> interrupted empty_disk (realpath empty_disk ''data/bot_stats.json'')"
    by (simp add: empty_disk_def)
  have b: "writable empty_disk (realpath empty_disk ''data/bot_qa_log.json'')"
    by (simp add: empty_disk_def)
  have b': "\<not> interrupted empty_disk (realpath empty_disk ''data/bot_qa_log.json'')"
    by (simp add: empty_disk_def)
  have c: "realpath empty_disk ''data/bot_stats.json'' \<noteq> realpath empty_disk ''data/bot_qa_log.json''"
    by (simp add: empty_disk_def strip_dot_slash_def)
  show ?thesis
    using a a' b b' c
      persistence_round_trip[OF a a' b b' c, of built_pipeline "''data/bot_stats.json''"
        "''data/bot_qa_log.json''" rated_bot]
    by (simp add: fresh_bot_def)
qed

text \<open>
  When both paths lead to one file the QA log overwrites the statistics, and
  \<open>load_stats\<close> reads the log; the paths \<open>x.json\<close> and \<open>./x.json\<close> are such a pair. When
  the write of the statistics breaks off, the new bot keeps its initial statistics.
\<close>

lemma shared_file_round_trip:
  assumes "writable fs (realpath fs sp)" and "\<not> interrupted fs (realpath fs sp)"
    and "realpath fs qp = realpath fs sp"
  shows "load_stats sp (TelegramRAGBot rp sp' qp') (save_qa_log qp b (save_stats sp b fs))
           = Foreign (qa_log_to_json (qa_log b))"
  using assms
  by (simp add: load_stats_def save_stats_def save_qa_log_def open_w_def json_dump_def
        json_load_def stats_of_json_def qa_log_to_json_def)

lemma aliased_paths_example:
  "''x.json'' \<noteq> ''./x.json''
   \<and> load_stats ''x.json'' fresh_bot
        (save_qa_log ''./x.json'' rated_bot (save_stats ''x.json'' rated_bot empty_disk))
      = Foreign (qa_log_to_json (qa_log rated_bot))"
proof -
  have a: "writable empty_disk (realpath empty_disk ''x.json'')" by (simp add: empty_disk_def)
  have b: "\<not> interrupted empty_disk (realpath empty_disk ''x.json'')"
    by (simp add: empty_disk_def)
  have c: "realpath empty_disk ''./x.json'' = realpath empty_disk ''x.json''"
    by (simp add: empty_disk_def strip_dot_slash_def)
  show ?thesis
    using shared_file_round_trip[OF a b c, of built_pipeline "''data/bot_stats.json''"
        "''data/bot_qa_log.json''" rated_bot]
    by (simp add: fresh_bot_def)
qed

lemma interrupted_save_round_trip:
  assumes "writable fs (realpath fs sp)" and "interrupted fs (realpath fs sp)"
  shows "load_stats sp (TelegramRAGBot rp sp' qp') (save_stats sp b fs)
           = Loaded (TelegramRAGBot rp sp' qp')"
  using assms
  by (simp add: load_stats_def save_stats_def open_w_def json_dump_def json_load_def)

end
